theory Spec2Isabelle
  imports Complex_Main
begin

section \<open>Python strings\<close>

text \<open>
  A Python \<^verbatim>\<open>str\<close> is a sequence of Unicode code points, so a string is modelled as a
  list of code points (natural numbers), not as a list of bytes. \<open>py\<close> turns an ASCII
  literal of the source into that representation.
\<close>

type_synonym pystr = "nat list"

definition py :: "string \<Rightarrow> pystr" where
  "py s = map of_char s"

text \<open>
  The code points for which \<^verbatim>\<open>str.isspace()\<close> holds. \<^verbatim>\<open>str.split()\<close> without
  arguments and the class \<^verbatim>\<open>\s\<close> of a \<^verbatim>\<open>str\<close> pattern both use this set.
\<close>

definition unicode_whitespace :: "nat list" where
  "unicode_whitespace =
     [9, 10, 11, 12, 13, 28, 29, 30, 31, 32, 133, 160, 5760,
      8192, 8193, 8194, 8195, 8196, 8197, 8198, 8199, 8200, 8201, 8202,
      8232, 8233, 8239, 8287, 12288]"

definition isspace :: "nat \<Rightarrow> bool" where
  "isspace c = (c \<in> set unicode_whitespace)"

text \<open>\<^verbatim>\<open>s.strip(chars)\<close>: drops leading and trailing code points that are in \<open>chars\<close>.\<close>

definition str_strip :: "pystr \<Rightarrow> pystr \<Rightarrow> pystr" where
  "str_strip chars s =
     rev (dropWhile (\<lambda>c. c \<in> set chars) (rev (dropWhile (\<lambda>c. c \<in> set chars) s)))"

text \<open>
  \<^verbatim>\<open>s.split()\<close>: the maximal runs of non-whitespace, in order. A code point that is
  not whitespace starts a new word when the next one is whitespace (or the string
  ends), and otherwise joins the word that follows it.
\<close>

fun str_split :: "pystr \<Rightarrow> pystr list" where
  "str_split [] = []"
| "str_split (c # cs) =
     (if isspace c then str_split cs
      else (case str_split cs of
              [] \<Rightarrow> [[c]]
            | w # ws \<Rightarrow> (case cs of
                          [] \<Rightarrow> [[c]]
                        | d # ds \<Rightarrow> if isspace d then [c] # w # ws else (c # w) # ws)))"

text \<open>\<^verbatim>\<open>sep.join(words)\<close>.\<close>

fun str_join :: "pystr \<Rightarrow> pystr list \<Rightarrow> pystr" where
  "str_join sep [] = []"
| "str_join sep [w] = w"
| "str_join sep (w # v # ws) = w @ sep @ str_join sep (v # ws)"

section \<open>The suffix patterns of \<^verbatim>\<open>clean_company_name\<close>\<close>

text \<open>
  Every pattern of the source has the shape \<^verbatim>\<open>\s+WORD$\<close> or \<^verbatim>\<open>\s+WORD\.?$\<close>,
  compiled with \<^verbatim>\<open>re.IGNORECASE\<close>. A pattern is the word and whether the optional
  dot follows it.

  Under \<^verbatim>\<open>re.IGNORECASE\<close> a letter of a \<^verbatim>\<open>str\<close> pattern matches its two ASCII
  cases; in addition \<^verbatim>\<open>i\<close> matches U+0130 and U+0131, \<^verbatim>\<open>k\<close> matches U+212A and
  \<^verbatim>\<open>s\<close> matches U+017F.
\<close>

type_synonym suffix_pattern = "pystr \<times> bool"

definition ascii_lower :: "nat \<Rightarrow> nat" where
  "ascii_lower c = (if 65 \<le> c \<and> c \<le> 90 then c + 32 else c)"

definition ci_match :: "nat \<Rightarrow> nat \<Rightarrow> bool" where
  "ci_match p c =
     (ascii_lower c = ascii_lower p
      \<or> (ascii_lower p = 105 \<and> (c = 304 \<or> c = 305))
      \<or> (ascii_lower p = 107 \<and> c = 8490)
      \<or> (ascii_lower p = 115 \<and> c = 383))"

text \<open>Matching the letters of the word at the head of the text; the result is the rest.\<close>

fun match_word :: "pystr \<Rightarrow> pystr \<Rightarrow> pystr option" where
  "match_word [] s = Some s"
| "match_word (p # ps) [] = None"
| "match_word (p # ps) (c # cs) = (if ci_match p c then match_word ps cs else None)"

text \<open>
  \<^verbatim>\<open>$\<close> without \<^verbatim>\<open>re.MULTILINE\<close> matches at the end of the string and just before a
  newline that is the last code point.
\<close>

definition at_end :: "pystr \<Rightarrow> bool" where
  "at_end s = (s = [] \<or> s = [10])"

text \<open>
  A match of the pattern that starts exactly at the head of \<open>s\<close>; the result is the
  text after the match. \<^verbatim>\<open>\s+\<close> takes the whole run of whitespace (the word starts
  with a letter, so giving whitespace back never helps), and \<^verbatim>\<open>\.?\<close> takes a dot
  when there is one (at a dot \<^verbatim>\<open>$\<close> does not match).
\<close>

definition match_suffix :: "suffix_pattern \<Rightarrow> pystr \<Rightarrow> pystr option" where
  "match_suffix pat s =
     (if takeWhile isspace s = [] then None
      else (case match_word (fst pat) (dropWhile isspace s) of
              None \<Rightarrow> None
            | Some t \<Rightarrow>
                (case t of
                   [] \<Rightarrow> Some []
                 | d # ds \<Rightarrow>
                     if snd pat \<and> d = 46 then (if at_end ds then Some ds else None)
                     else if at_end t then Some t else None)))"

text \<open>
  \<^verbatim>\<open>pattern.sub('', s)\<close>: the leftmost match is removed. What is left after a match
  is empty or a single newline, where no further match can start, so at most one
  match is replaced.
\<close>

fun re_sub :: "suffix_pattern \<Rightarrow> pystr \<Rightarrow> pystr" where
  "re_sub pat [] = []"
| "re_sub pat (c # cs) =
     (case match_suffix pat (c # cs) of
        Some t \<Rightarrow> t
      | None \<Rightarrow> c # re_sub pat cs)"

section \<open>\<^verbatim>\<open>WebsiteChecker.clean_company_name\<close>\<close>

definition suffixes :: "suffix_pattern list" where
  "suffixes =
     [(py ''Inc'', True),
      (py ''Corp'', True),
      (py ''Incorporated'', False),
      (py ''Corporation'', False),
      (py ''Limited'', False),
      (py ''Ltd'', True)]"

text \<open>The argument of \<^verbatim>\<open>strip\<close>: the byte order mark U+FEFF and the two quotes.\<close>

definition bom_and_quotes :: pystr where
  "bom_and_quotes = [65279, 34, 39]"

definition special_characters :: pystr where
  "special_characters = py ''!@#$%^&*()_+-=[]{}|;:,.<>?''"

definition strip_suffixes :: "pystr \<Rightarrow> pystr" where
  "strip_suffixes name = fold re_sub suffixes name"

definition remove_special :: "pystr \<Rightarrow> pystr" where
  "remove_special name = filter (\<lambda>c. c \<notin> set special_characters) name"

definition clean_company_name :: "pystr \<Rightarrow> pystr" where
  "clean_company_name name =
     str_join (py '' '')
       (str_split (remove_special (strip_suffixes (str_strip bom_and_quotes name))))"

text \<open>
  The source decorates the function with \<^verbatim>\<open>@lru_cache(maxsize=1000)\<close>. The cache
  is a list of (argument, result) pairs, most recently used first; a hit moves its
  entry to the front, a miss computes the result, stores it at the front and drops
  the least recently used entry beyond 1000.
\<close>

type_synonym cache = "(pystr \<times> pystr) list"

definition cached_clean_company_name :: "cache \<Rightarrow> pystr \<Rightarrow> pystr \<times> cache" where
  "cached_clean_company_name c name =
     (case map_of c name of
        Some v \<Rightarrow> (v, (name, v) # filter (\<lambda>e. fst e \<noteq> name) c)
      | None \<Rightarrow> (clean_company_name name, take 1000 ((name, clean_company_name name) # c)))"

text \<open>The cache after a sequence of earlier calls, starting from the empty cache.\<close>

definition warm_cache :: "pystr list \<Rightarrow> cache" where
  "warm_cache names = fold (\<lambda>n c. snd (cached_clean_company_name c n)) names []"

section \<open>The Python runtime and the network\<close>

text \<open>
  What the code takes from outside is a parameter of the model: \<^verbatim>\<open>str.lower\<close> (the
  Unicode case tables), the transport behind \<^verbatim>\<open>requests.get\<close> and
  \<^verbatim>\<open>session.get\<close> (a deterministic function of the URL and the timeout), and the
  wall clock reading \<^verbatim>\<open>time.time() - start_time\<close> taken when the probe of a company
  returns. Durations are rationals; the rounding of floats is not modelled.

  A request either yields a response (status code, and the \<^verbatim>\<open>elapsed\<close> of the response)
  or fails with an exception of the class the source catches
  (\<^verbatim>\<open>requests.RequestException\<close>, \<^verbatim>\<open>aiohttp.ClientError\<close>, \<^verbatim>\<open>asyncio.TimeoutError\<close>):
  a timeout, a refused connection, a failed name lookup. A transport that raises
  anything else is outside the model.
\<close>

datatype failure = Timeout | ConnectionError | DNSFailure

datatype outcome = Response int rat | Failed failure

record runtime =
  str_lower :: "pystr \<Rightarrow> pystr"
  http_get :: "pystr \<Rightarrow> int \<Rightarrow> outcome"
  clock :: "pystr \<Rightarrow> rat"

datatype exn = TypeError | ZeroDivisionError | AttributeError | ValueError

section \<open>\<^verbatim>\<open>WebsiteChecker.generate_website_urls\<close>\<close>

definition generate_website_urls :: "runtime \<Rightarrow> pystr \<Rightarrow> pystr list" where
  "generate_website_urls rt name =
     (let cleaned_name = filter (\<lambda>c. c \<noteq> 32) (str_lower rt (clean_company_name name))
      in [py ''https://www.'' @ cleaned_name @ py ''.com'',
          py ''https://'' @ cleaned_name @ py ''.com'',
          py ''http://www.'' @ cleaned_name @ py ''.com'',
          py ''http://'' @ cleaned_name @ py ''.com'',
          py ''https://'' @ cleaned_name @ py ''.net'',
          py ''https://www.'' @ cleaned_name @ py ''.org''])"

section \<open>Results and dispatch events\<close>

text \<open>The dictionary every strategy builds per company; \<open>None\<close> is Python's \<^verbatim>\<open>None\<close>.\<close>

record result =
  original_name :: pystr
  cleaned_name :: pystr
  url :: pystr
  status_code :: "int option"
  time_taken :: rat

text \<open>
  What a run does towards the network, in order: a call of the rate limiter, or a
  request for a URL.
\<close>

datatype event = RateLimit | Get pystr

text \<open>
  The loop \<^verbatim>\<open>for url in urls: try: get(url) ... except: continue\<close> that the three
  strategies share: the candidates are requested in order until one yields a
  response. The result is the requests made and the first response, if any.
\<close>

fun first_response ::
  "(pystr \<Rightarrow> outcome) \<Rightarrow> pystr list \<Rightarrow> event list \<times> (pystr \<times> int \<times> rat) option" where
  "first_response get [] = ([], None)"
| "first_response get (u # us) =
     (case get u of
        Response code elapsed \<Rightarrow> ([Get u], Some (u, code, elapsed))
      | Failed f \<Rightarrow> (case first_response get us of (tr, r) \<Rightarrow> (Get u # tr, r)))"

section \<open>\<^verbatim>\<open>check_websites_sequential\<close>\<close>

text \<open>
  A company with a response appends one dictionary (with the response's own
  \<^verbatim>\<open>elapsed\<close>) and breaks; a company whose candidates all fail leaves the inner loop
  without appending anything. \<^verbatim>\<open>WebsiteChecker(timeout=timeout)\<close> always constructs (the
  default \<open>max_concurrent\<close> is 10) and its attribute \<^verbatim>\<open>generate_website_urls\<close> is the
  method, so the call is the function itself.
\<close>

fun check_websites_sequential ::
  "runtime \<Rightarrow> pystr list \<Rightarrow> int \<Rightarrow> event list \<times> result list" where
  "check_websites_sequential rt [] timeout = ([], [])"
| "check_websites_sequential rt (company # rest) timeout =
     (case first_response (\<lambda>u. http_get rt u timeout) (generate_website_urls rt company) of
        (tr, r) \<Rightarrow>
          (case check_websites_sequential rt rest timeout of
             (tr', results) \<Rightarrow>
               (tr @ tr',
                (case r of
                   Some (u, code, elapsed) \<Rightarrow>
                     \<lparr>original_name = company,
                      cleaned_name = clean_company_name company,
                      url = u,
                      status_code = Some code,
                      time_taken = elapsed\<rparr> # results
                 | None \<Rightarrow> results))))"

section \<open>\<^verbatim>\<open>check_websites_parallel\<close>\<close>

definition check_single_company :: "runtime \<Rightarrow> int \<Rightarrow> pystr \<Rightarrow> event list \<times> result" where
  "check_single_company rt timeout company =
     (case first_response (\<lambda>u. http_get rt u timeout) (generate_website_urls rt company) of
        (tr, Some (u, code, elapsed)) \<Rightarrow>
          (tr, \<lparr>original_name = company,
                cleaned_name = clean_company_name company,
                url = u,
                status_code = Some code,
                time_taken = clock rt company\<rparr>)
      | (tr, None) \<Rightarrow>
          (tr, \<lparr>original_name = company,
                cleaned_name = clean_company_name company,
                url = py ''N/A'',
                status_code = Some 0,
                time_taken = clock rt company\<rparr>))"

text \<open>
  \<^verbatim>\<open>ThreadPoolExecutor(max_workers)\<close> raises \<^verbatim>\<open>ValueError\<close> unless \<open>max_workers\<close> is
  positive; \<^verbatim>\<open>executor.map\<close> yields the results in the order of \<open>companies\<close>, whatever
  the order in which the workers finish.
\<close>

definition check_websites_parallel ::
  "runtime \<Rightarrow> pystr list \<Rightarrow> int \<Rightarrow> int \<Rightarrow> exn + result list" where
  "check_websites_parallel rt companies max_workers timeout =
     (if max_workers \<le> 0 then Inl ValueError
      else Inr (map (\<lambda>company. snd (check_single_company rt timeout company)) companies))"

section \<open>The \<^verbatim>\<open>WebsiteChecker\<close> object\<close>

text \<open>
  An instance is its \<^verbatim>\<open>__dict__\<close>: the attributes that \<^verbatim>\<open>__init__\<close> assigns, by name.
  The class supplies the methods. Looking a name up on an instance finds an instance
  attribute before a method of the class (a function is a non-data descriptor), and
  calling a value that is not a function raises \<^verbatim>\<open>TypeError\<close>.
\<close>

datatype pyvalue = PyInt int | PyFloat rat | PySemaphore int | PyMethod string

type_synonym pyobject = "(string \<times> pyvalue) list"

definition class_methods :: "string list" where
  "class_methods =
     [''clean_company_name'', ''generate_website_urls'', ''rate_limit'',
      ''check_website_async'', ''check_websites_async'', ''run_async'']"

text \<open>
  \<^verbatim>\<open>__init__(self, timeout=3, max_concurrent=10, rate_limit=0.2)\<close>.
  \<^verbatim>\<open>asyncio.Semaphore(value)\<close> raises \<^verbatim>\<open>ValueError\<close> for a negative value.
\<close>

definition WebsiteChecker_init :: "int \<Rightarrow> int \<Rightarrow> rat \<Rightarrow> exn + pyobject" where
  "WebsiteChecker_init timeout max_concurrent rate_limit =
     (if max_concurrent < 0 then Inl ValueError
      else Inr [(''timeout'', PyInt timeout),
                (''max_concurrent'', PyInt max_concurrent),
                (''rate_limit'', PyFloat rate_limit),
                (''semaphore'', PySemaphore max_concurrent),
                (''last_request_time'', PyInt 0)])"

definition getattr :: "pyobject \<Rightarrow> string \<Rightarrow> exn + pyvalue" where
  "getattr self name =
     (case map_of self name of
        Some v \<Rightarrow> Inr v
      | None \<Rightarrow> if name \<in> set class_methods then Inr (PyMethod name) else Inl AttributeError)"

text \<open>\<^verbatim>\<open>self.name(...)\<close>: the method whose body runs, or the exception of the call.\<close>

definition call_attr :: "pyobject \<Rightarrow> string \<Rightarrow> exn + string" where
  "call_attr self name =
     (case getattr self name of
        Inl e \<Rightarrow> Inl e
      | Inr (PyMethod m) \<Rightarrow> Inr m
      | Inr (PyInt i) \<Rightarrow> Inl TypeError
      | Inr (PyFloat x) \<Rightarrow> Inl TypeError
      | Inr (PySemaphore n) \<Rightarrow> Inl TypeError)"

definition int_attr :: "pyobject \<Rightarrow> string \<Rightarrow> exn + int" where
  "int_attr self name =
     (case getattr self name of
        Inl e \<Rightarrow> Inl e
      | Inr (PyInt i) \<Rightarrow> Inr i
      | Inr (PyFloat x) \<Rightarrow> Inl TypeError
      | Inr (PySemaphore n) \<Rightarrow> Inl TypeError
      | Inr (PyMethod m) \<Rightarrow> Inl TypeError)"

definition semaphore_attr :: "pyobject \<Rightarrow> string \<Rightarrow> exn + int" where
  "semaphore_attr self name =
     (case getattr self name of
        Inl e \<Rightarrow> Inl e
      | Inr (PySemaphore n) \<Rightarrow> Inr n
      | Inr (PyInt i) \<Rightarrow> Inl TypeError
      | Inr (PyFloat x) \<Rightarrow> Inl TypeError
      | Inr (PyMethod m) \<Rightarrow> Inl TypeError)"

section \<open>The cooperative strategy\<close>

text \<open>
  A coroutine returns a value, raises, or waits forever (a semaphore without a slot
  never lets it in).
\<close>

datatype 'a completion = Returned 'a | Raised exn | Blocked

fun and_then ::
  "exn + 'a \<Rightarrow> ('a \<Rightarrow> event list \<times> 'b completion) \<Rightarrow> event list \<times> 'b completion" where
  "and_then (Inl e) k = ([], Raised e)"
| "and_then (Inr x) k = k x"

definition emit :: "event \<Rightarrow> event list \<times> 'b completion \<Rightarrow> event list \<times> 'b completion" where
  "emit ev p = (ev # fst p, snd p)"

text \<open>
  Lines 100 to 123 of \<^verbatim>\<open>check_website_async\<close>: the loop over the candidates and the
  two \<^verbatim>\<open>return\<close> statements. An exhausted list gives the URL \<^verbatim>\<open>'N/A'\<close> and the status
  code \<^verbatim>\<open>None\<close>.
\<close>

definition probe_candidates :: "runtime \<Rightarrow> int \<Rightarrow> pystr \<Rightarrow> event list \<times> result" where
  "probe_candidates rt timeout company_name =
     (case first_response (\<lambda>u. http_get rt u timeout) (generate_website_urls rt company_name) of
        (tr, Some (u, code, elapsed)) \<Rightarrow>
          (tr, \<lparr>original_name = company_name,
                cleaned_name = clean_company_name company_name,
                url = u,
                status_code = Some code,
                time_taken = clock rt company_name\<rparr>)
      | (tr, None) \<Rightarrow>
          (tr, \<lparr>original_name = company_name,
                cleaned_name = clean_company_name company_name,
                url = py ''N/A'',
                status_code = None,
                time_taken = clock rt company_name\<rparr>))"

text \<open>
  \<^verbatim>\<open>check_website_async\<close>, statement by statement:
  \<^verbatim>\<open>self.clean_company_name(company_name)\<close>, \<^verbatim>\<open>async with self.semaphore\<close>,
  \<^verbatim>\<open>await self.rate_limit()\<close>, \<^verbatim>\<open>self.generate_website_urls(company_name)\<close>, and the
  loop with \<^verbatim>\<open>timeout=self.timeout\<close>. The body of the method \<^verbatim>\<open>rate_limit\<close> only
  sleeps and stores a time stamp; when it runs it shows as the event \<open>RateLimit\<close>.
\<close>

definition check_website_async ::
  "pyobject \<Rightarrow> runtime \<Rightarrow> pystr \<Rightarrow> event list \<times> result completion" where
  "check_website_async self rt company_name =
     and_then (call_attr self ''clean_company_name'') (\<lambda>m1.
       and_then (semaphore_attr self ''semaphore'') (\<lambda>slots.
         if slots \<le> 0 then ([], Blocked)
         else and_then (call_attr self ''rate_limit'') (\<lambda>m2.
           emit RateLimit
             (and_then (call_attr self ''generate_website_urls'') (\<lambda>m3.
                and_then (int_attr self ''timeout'') (\<lambda>timeout.
                  (fst (probe_candidates rt timeout company_name),
                   Returned (snd (probe_candidates rt timeout company_name)))))))))"

text \<open>
  \<^verbatim>\<open>asyncio.gather\<close>: the results in the order of the tasks; an exception of a task
  is raised to the caller.
\<close>

fun gather :: "'a completion list \<Rightarrow> 'a list completion" where
  "gather [] = Returned []"
| "gather (Raised e # cs) = Raised e"
| "gather (Blocked # cs) = (case gather cs of Raised e \<Rightarrow> Raised e | _ \<Rightarrow> Blocked)"
| "gather (Returned x # cs) =
     (case gather cs of
        Returned xs \<Rightarrow> Returned (x # xs)
      | Raised e \<Rightarrow> Raised e
      | Blocked \<Rightarrow> Blocked)"

definition check_websites_async ::
  "pyobject \<Rightarrow> runtime \<Rightarrow> pystr list \<Rightarrow> result list completion" where
  "check_websites_async self rt companies =
     gather (map (\<lambda>company. snd (check_website_async self rt company)) companies)"

definition run_async :: "pyobject \<Rightarrow> runtime \<Rightarrow> pystr list \<Rightarrow> result list completion" where
  "run_async self rt companies = check_websites_async self rt companies"

section \<open>\<^verbatim>\<open>analyze_performance\<close>\<close>

record performance_metrics =
  total_companies :: nat
  successful_checks :: nat
  success_rate :: rat
  average_response_time :: rat
  median_response_time :: rat
  min_response_time :: rat
  max_response_time :: rat

text \<open>
  \<^verbatim>\<open>sum(1 for code in status_codes if code > 0)\<close>: comparing \<^verbatim>\<open>None\<close> with \<^verbatim>\<open>0\<close>
  raises \<^verbatim>\<open>TypeError\<close>.
\<close>

fun count_positive :: "int option list \<Rightarrow> exn + nat" where
  "count_positive [] = Inr 0"
| "count_positive (None # codes) = Inl TypeError"
| "count_positive (Some code # codes) =
     (case count_positive codes of
        Inl e \<Rightarrow> Inl e
      | Inr n \<Rightarrow> Inr (if code > 0 then Suc n else n))"

text \<open>\<^verbatim>\<open>statistics.mean\<close> and \<^verbatim>\<open>statistics.median\<close>, called on non-empty data only.\<close>

definition mean :: "rat list \<Rightarrow> rat" where
  "mean xs = sum_list xs / of_nat (length xs)"

definition median :: "rat list \<Rightarrow> rat" where
  "median xs =
     (let d = sort xs; n = length xs
      in if n mod 2 = 1 then d ! (n div 2) else (d ! (n div 2 - 1) + d ! (n div 2)) / 2)"

text \<open>
  The dictionary display is evaluated entry by entry: the count of successes first
  (twice), then the division by \<^verbatim>\<open>len(results)\<close>, then the statistics.
\<close>

definition analyze_performance :: "result list \<Rightarrow> exn + performance_metrics" where
  "analyze_performance results =
     (let status_codes = map status_code results;
          response_times = map time_taken results
      in case count_positive status_codes of
           Inl e \<Rightarrow> Inl e
         | Inr successful \<Rightarrow>
             if length results = 0 then Inl ZeroDivisionError
             else Inr \<lparr>total_companies = length results,
                       successful_checks = successful,
                       success_rate = of_nat successful / of_nat (length results) * 100,
                       average_response_time = mean response_times,
                       median_response_time = median response_times,
                       min_response_time = fold min (tl response_times) (hd response_times),
                       max_response_time = fold max (tl response_times) (hd response_times)\<rparr>)"

section \<open>Example runs\<close>

text \<open>
  Stub runtimes for concrete runs: \<^verbatim>\<open>str.lower\<close> on ASCII text, a transport on which
  every request times out, one that answers every request with status 200, and one
  on which only the third candidate of \<^verbatim>\<open>Acme Inc\<close> answers (with status 404).
\<close>

definition ascii_str_lower :: "pystr \<Rightarrow> pystr" where
  "ascii_str_lower s = map ascii_lower s"

definition dead_get :: "pystr \<Rightarrow> int \<Rightarrow> outcome" where
  "dead_get u timeout = Failed Timeout"

definition live_get :: "pystr \<Rightarrow> int \<Rightarrow> outcome" where
  "live_get u timeout = Response 200 (1 / 2)"

definition third_get :: "pystr \<Rightarrow> int \<Rightarrow> outcome" where
  "third_get u timeout =
     (if u = py ''http://www.acme.com'' then Response 404 (1 / 4) else Failed ConnectionError)"

definition unit_clock :: "pystr \<Rightarrow> rat" where
  "unit_clock company = 1"

definition dead_runtime :: runtime where
  "dead_runtime = \<lparr>str_lower = ascii_str_lower, http_get = dead_get, clock = unit_clock\<rparr>"

definition live_runtime :: runtime where
  "live_runtime = \<lparr>str_lower = ascii_str_lower, http_get = live_get, clock = unit_clock\<rparr>"

definition third_runtime :: runtime where
  "third_runtime = \<lparr>str_lower = ascii_str_lower, http_get = third_get, clock = unit_clock\<rparr>"

definition acme_urls :: "pystr list" where
  "acme_urls =
     [py ''https://www.acme.com'', py ''https://acme.com'', py ''http://www.acme.com'',
      py ''http://acme.com'', py ''https://acme.net'', py ''https://www.acme.org'']"

text \<open>Three result dictionaries: a response, a failure with status code 0, and a failure
  with status code \<^verbatim>\<open>None\<close>.\<close>

definition result_200 :: result where
  "result_200 = \<lparr>original_name = py ''Acme Inc'', cleaned_name = py ''Acme'',
     url = py ''https://www.acme.com'', status_code = Some 200, time_taken = 1 / 2\<rparr>"

definition result_0 :: result where
  "result_0 = \<lparr>original_name = py ''Bad News, Inc.'', cleaned_name = py ''Bad News'',
     url = py ''N/A'', status_code = Some 0, time_taken = 3\<rparr>"

definition result_None :: result where
  "result_None = \<lparr>original_name = py ''Bad News, Inc.'', cleaned_name = py ''Bad News'',
     url = py ''N/A'', status_code = None, time_taken = 3\<rparr>"

section \<open>Splitting and joining\<close>

lemma str_split_nonspace_nonempty:
  "\<not> isspace c \<Longrightarrow> str_split (c # cs) \<noteq> []"
  by (simp split: list.split)

text \<open>The recursion equation of \<open>str_split\<close> without a case distinction on the rest.\<close>

lemma str_split_Cons:
  "str_split (c # cs) =
     (if isspace c then str_split cs
      else if cs = [] \<or> isspace (hd cs) then [c] # str_split cs
      else (c # hd (str_split cs)) # tl (str_split cs))"
proof (cases cs)
  case Nil
  then show ?thesis by simp
next
  case (Cons d ds)
  have ne: "\<not> isspace d \<Longrightarrow> str_split cs \<noteq> []"
    unfolding Cons by (rule str_split_nonspace_nonempty)
  have "str_split (c # cs) =
     (if isspace c then str_split cs
      else (case str_split cs of
              [] \<Rightarrow> [[c]]
            | w # ws \<Rightarrow> if isspace d then [c] # w # ws else (c # w) # ws))"
    unfolding Cons str_split.simps(2)[of c "d # ds"] by (simp only: list.case)
  also have "\<dots> =
     (if isspace c then str_split cs
      else if isspace d then [c] # str_split cs
      else (c # hd (str_split cs)) # tl (str_split cs))"
    using ne by (cases "str_split cs") (auto simp del: str_split.simps)
  finally show ?thesis
    by (simp only: Cons list.sel list.distinct simp_thms)
qed

declare str_split.simps(2) [simp del]

lemma str_split_words:
  "w \<in> set (str_split s) \<Longrightarrow> w \<noteq> [] \<and> (\<forall>c\<in>set w. \<not> isspace c)"
proof (induction s arbitrary: w)
  case Nil
  then show ?case by simp
next
  case (Cons c cs)
  show ?case
  proof (cases "isspace c")
    case True
    with Cons show ?thesis by (simp add: str_split_Cons)
  next
    case False
    show ?thesis
    proof (cases "cs = [] \<or> isspace (hd cs)")
      case True
      with False Cons show ?thesis by (auto simp: str_split_Cons)
    next
      case False
      then obtain v vs where v: "str_split cs = v # vs"
        using str_split_nonspace_nonempty[of "hd cs" "tl cs"]
        by (cases "str_split cs") auto
      with False \<open>\<not> isspace c\<close> Cons.prems
      have "w = c # v \<or> w \<in> set vs" by (auto simp: str_split_Cons)
      then show ?thesis
        using Cons.IH[of v] Cons.IH[of w] v \<open>\<not> isspace c\<close> by auto
    qed
  qed
qed

lemma str_split_set: "w \<in> set (str_split s) \<Longrightarrow> set w \<subseteq> set s"
proof (induction s arbitrary: w)
  case Nil
  then show ?case by simp
next
  case (Cons c cs)
  show ?case
  proof (cases "isspace c")
    case True
    with Cons show ?thesis by (auto simp: str_split_Cons)
  next
    case False
    show ?thesis
    proof (cases "cs = [] \<or> isspace (hd cs)")
      case True
      with False Cons show ?thesis by (auto simp: str_split_Cons)
    next
      case False
      then obtain v vs where v: "str_split cs = v # vs"
        using str_split_nonspace_nonempty[of "hd cs" "tl cs"]
        by (cases "str_split cs") auto
      with False \<open>\<not> isspace c\<close> Cons.prems
      have "w = c # v \<or> w \<in> set vs" by (auto simp: str_split_Cons)
      then show ?thesis
        using Cons.IH[of v] Cons.IH[of w] v by auto
    qed
  qed
qed

lemma str_split_word:
  "w \<noteq> [] \<Longrightarrow> \<forall>c\<in>set w. \<not> isspace c \<Longrightarrow> str_split w = [w]"
proof (induction w)
  case Nil
  then show ?case by simp
next
  case (Cons c cs)
  show ?case
  proof (cases "cs = []")
    case True
    with Cons.prems show ?thesis by (simp add: str_split_Cons)
  next
    case False
    with Cons.IH Cons.prems show ?thesis by (simp add: str_split_Cons)
  qed
qed

lemma str_split_word_space:
  "w \<noteq> [] \<Longrightarrow> \<forall>c\<in>set w. \<not> isspace c \<Longrightarrow> isspace d \<Longrightarrow>
   str_split (w @ d # rest) = w # str_split rest"
proof (induction w)
  case Nil
  then show ?case by simp
next
  case (Cons c cs)
  show ?case
  proof (cases "cs = []")
    case True
    with Cons.prems show ?thesis by (simp add: str_split_Cons)
  next
    case False
    with Cons.IH Cons.prems show ?thesis by (simp add: str_split_Cons hd_append)
  qed
qed

lemma str_split_join:
  "\<forall>w\<in>set ws. w \<noteq> [] \<and> (\<forall>c\<in>set w. \<not> isspace c) \<Longrightarrow> isspace d \<Longrightarrow>
   str_split (str_join [d] ws) = ws"
proof (induction ws rule: induct_list012)
  case 1
  then show ?case by simp
next
  case (2 w)
  then show ?case by (simp add: str_split_word)
next
  case (3 w v ws)
  then show ?case by (simp add: str_split_word_space)
qed

lemma str_join_set:
  "set (str_join sep ws) \<subseteq> set sep \<union> \<Union> (set ` set ws)"
  by (induction sep ws rule: str_join.induct) auto

lemma str_join_split_idem:
  "isspace d \<Longrightarrow>
   str_join [d] (str_split (str_join [d] (str_split s))) = str_join [d] (str_split s)"
  using str_split_join[of "str_split s" d] str_split_words[of _ s] by simp

text \<open>Splitting word by word, for computing on literals.\<close>

lemma str_split_space: "isspace c \<Longrightarrow> str_split (c # cs) = str_split cs"
  by (simp add: str_split_Cons)

lemma str_split_nonspace:
  assumes "\<not> isspace c"
  shows "str_split (c # cs) =
     takeWhile (\<lambda>x. \<not> isspace x) (c # cs) # str_split (dropWhile (\<lambda>x. \<not> isspace x) (c # cs))"
proof -
  let ?w = "takeWhile (\<lambda>x. \<not> isspace x) (c # cs)"
  let ?r = "dropWhile (\<lambda>x. \<not> isspace x) (c # cs)"
  from assms have w: "?w \<noteq> []" "\<forall>x\<in>set ?w. \<not> isspace x"
    by (auto dest: set_takeWhileD)
  show ?thesis
  proof (cases ?r)
    case Nil
    then have "c # cs = ?w" by (metis append_Nil2 takeWhile_dropWhile_id)
    then have "str_split (c # cs) = str_split ?w" by (rule arg_cong)
    also have "\<dots> = [?w]" using w by (rule str_split_word)
    finally show ?thesis using Nil by simp
  next
    case (Cons d r)
    then have d: "isspace d" by (metis hd_dropWhile list.distinct(1) list.sel(1))
    have "c # cs = ?w @ d # r" using Cons by (metis takeWhile_dropWhile_id)
    then have "str_split (c # cs) = str_split (?w @ d # r)" by (rule arg_cong)
    also have "\<dots> = ?w # str_split r" using w d by (rule str_split_word_space)
    finally show ?thesis using Cons d by (simp add: str_split_space)
  qed
qed

section \<open>Evaluation and the candidate loop\<close>

lemmas string_eval =
  py_def isspace_def unicode_whitespace_def str_strip_def str_split_space
  str_split_nonspace ascii_lower_def ci_match_def at_end_def match_suffix_def suffixes_def
  bom_and_quotes_def special_characters_def strip_suffixes_def remove_special_def
  clean_company_name_def

lemma clean_acme_inc: "clean_company_name (py ''Acme Inc'') = py ''Acme''"
  by (simp add: string_eval)

lemma urls_acme:
  "str_lower rt = ascii_str_lower \<Longrightarrow> generate_website_urls rt (py ''Acme Inc'') = acme_urls"
  by (simp add: generate_website_urls_def clean_acme_inc acme_urls_def ascii_str_lower_def)
     (simp add: py_def ascii_lower_def)

lemma urls_acme_dead: "generate_website_urls dead_runtime (py ''Acme Inc'') = acme_urls"
  by (rule urls_acme) (simp add: dead_runtime_def)

lemma urls_acme_live: "generate_website_urls live_runtime (py ''Acme Inc'') = acme_urls"
  by (rule urls_acme) (simp add: live_runtime_def)

lemma urls_acme_third: "generate_website_urls third_runtime (py ''Acme Inc'') = acme_urls"
  by (rule urls_acme) (simp add: third_runtime_def)

lemma first_response_all_fail:
  "\<forall>v\<in>set us. \<exists>f. get v = Failed f \<Longrightarrow> first_response get us = (map Get us, None)"
  by (induction us) auto

lemma first_response_prefix:
  "\<forall>v\<in>set pre. \<exists>f. get v = Failed f \<Longrightarrow> get u = Response code elapsed \<Longrightarrow>
   first_response get (pre @ u # post) = (map Get (pre @ [u]), Some (u, code, elapsed))"
  by (induction pre) auto

lemma first_response_no_rate_limit: "RateLimit \<notin> set (fst (first_response get us))"
  by (induction us) (auto split: outcome.splits prod.splits)

lemma first_response_nonempty: "us \<noteq> [] \<Longrightarrow> fst (first_response get us) \<noteq> []"
  by (cases us) (auto split: outcome.splits prod.splits)

lemma generate_website_urls_nonempty: "generate_website_urls rt name \<noteq> []"
  by (simp add: generate_website_urls_def Let_def)

lemma seq_dead: "snd (check_websites_sequential (rt\<lparr>http_get := dead_get\<rparr>) companies timeout) = []"
proof (induction companies)
  case Nil
  then show ?case by simp
next
  case (Cons company rest)
  have "first_response (\<lambda>u. dead_get u timeout) us = (map Get us, None)" for us
    by (rule first_response_all_fail) (simp add: dead_get_def)
  with Cons show ?case by (auto split: prod.splits)
qed


lemma check_single_company_dead:
  "check_single_company (rt\<lparr>http_get := dead_get\<rparr>) timeout company =
     (map Get (generate_website_urls rt company),
      \<lparr>original_name = company, cleaned_name = clean_company_name company,
       url = py ''N/A'', status_code = Some 0, time_taken = clock rt company\<rparr>)"
proof -
  have "first_response (\<lambda>u. dead_get u timeout) us = (map Get us, None)" for us
    by (rule first_response_all_fail) (simp add: dead_get_def)
  then show ?thesis
    by (simp add: check_single_company_def generate_website_urls_def)
qed

lemma getattr_rate_limit:
  "WebsiteChecker_init timeout max_concurrent rate_limit = Inr self \<Longrightarrow>
   getattr self ''rate_limit'' = Inr (PyFloat rate_limit)"
  by (auto simp: WebsiteChecker_init_def getattr_def split: if_splits)

lemma call_rate_limit:
  "WebsiteChecker_init timeout max_concurrent rate_limit = Inr self \<Longrightarrow>
   call_attr self ''rate_limit'' = Inl TypeError"
  by (simp add: call_attr_def getattr_rate_limit)

lemma call_generate_website_urls:
  "WebsiteChecker_init timeout max_concurrent rate_limit = Inr self \<Longrightarrow>
   call_attr self ''generate_website_urls'' = Inr ''generate_website_urls''"
  by (auto simp: WebsiteChecker_init_def getattr_def call_attr_def class_methods_def
      split: if_splits)

lemma call_clean_company_name:
  "WebsiteChecker_init timeout max_concurrent rate_limit = Inr self \<Longrightarrow>
   call_attr self ''clean_company_name'' = Inr ''clean_company_name''"
  by (auto simp: WebsiteChecker_init_def getattr_def call_attr_def class_methods_def
      split: if_splits)

lemma semaphore_of_init:
  "WebsiteChecker_init timeout max_concurrent rate_limit = Inr self \<Longrightarrow>
   semaphore_attr self ''semaphore'' = Inr max_concurrent"
  by (auto simp: WebsiteChecker_init_def getattr_def semaphore_attr_def split: if_splits)

lemma check_website_async_raises:
  assumes "WebsiteChecker_init timeout max_concurrent rate_limit = Inr self"
    and "0 < max_concurrent"
  shows "check_website_async self rt company_name = ([], Raised TypeError)"
  using assms
  by (simp add: check_website_async_def call_clean_company_name semaphore_of_init
      call_rate_limit)

lemma gather_raised: "cs \<noteq> [] \<Longrightarrow> \<forall>c\<in>set cs. c = Raised e \<Longrightarrow> gather cs = Raised e"
  by (induction cs) auto

lemma run_async_raises:
  assumes "WebsiteChecker_init timeout max_concurrent rate_limit = Inr self"
    and "0 < max_concurrent" and "companies \<noteq> []"
  shows "run_async self rt companies = Raised TypeError"
  unfolding run_async_def check_websites_async_def
  by (rule gather_raised) (use assms in \<open>auto simp: check_website_async_raises\<close>)

section \<open>The probe boundary (C1)\<close>

text \<open>
  C1 says that \<^verbatim>\<open>check_website_async\<close> always returns a result and never raises.
  The code does not: \<^verbatim>\<open>__init__\<close> stores the number \<open>rate_limit\<close> in the instance under
  the name of the method \<^verbatim>\<open>rate_limit\<close>, so \<^verbatim>\<open>await self.rate_limit()\<close> calls a float.
  For every runtime and every company name, on an object built with the default
  \<open>max_concurrent\<close> of 10 or with the arguments of \<^verbatim>\<open>main\<close>, the probe raises
  \<^verbatim>\<open>TypeError\<close> before any request is made.
\<close>

theorem C1_check_website_async_raises_TypeError:
  "map_sum id (\<lambda>self. check_website_async self rt company_name)
     (WebsiteChecker_init timeout 10 rate_limit) = Inr ([], Raised TypeError)
   \<and> map_sum id (\<lambda>self. check_website_async self rt company_name)
     (WebsiteChecker_init 3 50 (1 / 5)) = Inr ([], Raised TypeError)"
proof -
  have "map_sum id (\<lambda>self. check_website_async self rt company_name)
     (WebsiteChecker_init t m r) = Inr ([], Raised TypeError)" if "0 < m" for t m r
  proof (cases "WebsiteChecker_init t m r")
    case (Inl e)
    with that show ?thesis by (simp add: WebsiteChecker_init_def split: if_splits)
  next
    case (Inr self)
    with that show ?thesis by (simp add: check_website_async_raises)
  qed
  then show ?thesis by simp
qed

section \<open>The three strategies side by side (C2)\<close>

text \<open>
  C2 says that the three strategies produce equal result sets. On the list with the
  one company \<^verbatim>\<open>Acme Inc\<close> and the transport on which every request times out, the
  sequential strategy returns no result, the parallel one returns a result with status
  code 0 and URL \<^verbatim>\<open>N/A\<close>, and \<^verbatim>\<open>run_async\<close> raises \<^verbatim>\<open>TypeError\<close>; on the transport
  that answers 200 the sequential strategy returns status code 200 and \<^verbatim>\<open>run_async\<close>
  still raises.
\<close>

theorem C2_strategies_differ:
  "snd (check_websites_sequential dead_runtime [py ''Acme Inc''] 3) = []
   \<and> check_websites_parallel dead_runtime [py ''Acme Inc''] 10 3 =
       Inr [\<lparr>original_name = py ''Acme Inc'', cleaned_name = py ''Acme'',
             url = py ''N/A'', status_code = Some 0, time_taken = 1\<rparr>]
   \<and> map_sum id (\<lambda>self. run_async self dead_runtime [py ''Acme Inc''])
       (WebsiteChecker_init 3 50 (1 / 5)) = Inr (Raised TypeError)
   \<and> map_sum id (\<lambda>self. run_async self live_runtime [py ''Acme Inc''])
       (WebsiteChecker_init 3 50 (1 / 5)) = Inr (Raised TypeError)
   \<and> map status_code (snd (check_websites_sequential live_runtime [py ''Acme Inc''] 3)) =
       [Some 200]"
proof -
  have d: "dead_runtime = dead_runtime\<lparr>http_get := dead_get\<rparr>"
    by (simp add: dead_runtime_def)
  have 1: "snd (check_websites_sequential dead_runtime [py ''Acme Inc''] 3) = []"
    by (subst d) (rule seq_dead)
  have 2: "check_websites_parallel dead_runtime [py ''Acme Inc''] 10 3 =
       Inr [\<lparr>original_name = py ''Acme Inc'', cleaned_name = py ''Acme'',
             url = py ''N/A'', status_code = Some 0, time_taken = 1\<rparr>]"
    using check_single_company_dead[of dead_runtime 3 "py ''Acme Inc''"]
    by (simp add: check_websites_parallel_def dead_runtime_def clean_acme_inc unit_clock_def)
  have 3: "map_sum id (\<lambda>self. run_async self rt [py ''Acme Inc''])
       (WebsiteChecker_init 3 50 (1 / 5)) = Inr (Raised TypeError)" for rt
  proof (cases "WebsiteChecker_init 3 50 (1 / 5)")
    case (Inl e)
    then show ?thesis by (simp add: WebsiteChecker_init_def)
  next
    case (Inr self)
    then show ?thesis by (simp add: run_async_raises)
  qed
  have 4: "map status_code (snd (check_websites_sequential live_runtime [py ''Acme Inc''] 3)) =
       [Some 200]"
    by (simp add: urls_acme_live) (simp add: acme_urls_def live_runtime_def live_get_def)
  from 1 2 3 4 show ?thesis by simp
qed

section \<open>One result per company (C3)\<close>

text \<open>
  C3 says that every strategy returns exactly one result per company, also for a
  company whose candidates all fail. When every request fails, the sequential
  strategy returns the empty list whatever the list of companies, while the parallel
  strategy returns one result per company.
\<close>

theorem C3_sequential_drops_failed_companies:
  "snd (check_websites_sequential (rt\<lparr>http_get := dead_get\<rparr>) companies timeout) = []
   \<and> map_sum id length (check_websites_parallel (rt\<lparr>http_get := dead_get\<rparr>) companies 10 timeout) =
       Inr (length companies)"
  by (simp add: seq_dead check_websites_parallel_def)

section \<open>Fallback over the candidates (C4)\<close>

text \<open>
  C4, as amended: \<^verbatim>\<open>check_single_company\<close>, the probe of the parallel strategy,
  requests the candidate URLs in the generated order. When the candidates before \<open>u\<close>
  all fail and \<open>u\<close> yields a response with any status code, exactly these candidates
  are requested and the result carries \<open>u\<close> and that status code. When every candidate
  fails, all of them are requested and the result carries the URL \<^verbatim>\<open>N/A\<close> and the
  status code 0.
\<close>

theorem C4_check_single_company_fallback:
  "(generate_website_urls rt company = pre @ u # post
      \<and> (\<forall>v\<in>set pre. \<exists>f. http_get rt v timeout = Failed f)
      \<and> http_get rt u timeout = Response code elapsed
    \<longrightarrow> check_single_company rt timeout company =
          (map Get (pre @ [u]),
           \<lparr>original_name = company, cleaned_name = clean_company_name company,
            url = u, status_code = Some code, time_taken = clock rt company\<rparr>))
   \<and> ((\<forall>v\<in>set (generate_website_urls rt company). \<exists>f. http_get rt v timeout = Failed f)
    \<longrightarrow> check_single_company rt timeout company =
          (map Get (generate_website_urls rt company),
           \<lparr>original_name = company, cleaned_name = clean_company_name company,
            url = py ''N/A'', status_code = Some 0, time_taken = clock rt company\<rparr>))"
proof (intro conjI impI)
  assume a: "generate_website_urls rt company = pre @ u # post
      \<and> (\<forall>v\<in>set pre. \<exists>f. http_get rt v timeout = Failed f)
      \<and> http_get rt u timeout = Response code elapsed"
  then have "first_response (\<lambda>u. http_get rt u timeout) (pre @ u # post) =
      (map Get (pre @ [u]), Some (u, code, elapsed))"
    by (intro first_response_prefix) auto
  with a show "check_single_company rt timeout company =
          (map Get (pre @ [u]),
           \<lparr>original_name = company, cleaned_name = clean_company_name company,
            url = u, status_code = Some code, time_taken = clock rt company\<rparr>)"
    by (simp add: check_single_company_def)
next
  assume "\<forall>v\<in>set (generate_website_urls rt company). \<exists>f. http_get rt v timeout = Failed f"
  then have "first_response (\<lambda>u. http_get rt u timeout) (generate_website_urls rt company) =
      (map Get (generate_website_urls rt company), None)"
    by (intro first_response_all_fail) auto
  then show "check_single_company rt timeout company =
          (map Get (generate_website_urls rt company),
           \<lparr>original_name = company, cleaned_name = clean_company_name company,
            url = py ''N/A'', status_code = Some 0, time_taken = clock rt company\<rparr>)"
    by (simp add: check_single_company_def)
qed

lemma third_get_simps:
  "third_get (py ''https://www.acme.com'') t = Failed ConnectionError"
  "third_get (py ''https://acme.com'') t = Failed ConnectionError"
  "third_get (py ''http://www.acme.com'') t = Response 404 (1 / 4)"
  by (simp_all add: third_get_def py_def)

text \<open>
  The theorem of C4 at \<^verbatim>\<open>Acme Inc\<close>: on the transport where only the third candidate
  answers (with 404), and on the transport where every request times out.
\<close>

theorem C4_check_single_company_fallback_witness:
  "check_single_company third_runtime 3 (py ''Acme Inc'') =
     ([Get (py ''https://www.acme.com''), Get (py ''https://acme.com''),
       Get (py ''http://www.acme.com'')],
      \<lparr>original_name = py ''Acme Inc'', cleaned_name = py ''Acme'',
       url = py ''http://www.acme.com'', status_code = Some 404, time_taken = 1\<rparr>)
   \<and> check_single_company dead_runtime 3 (py ''Acme Inc'') =
     (map Get acme_urls,
      \<lparr>original_name = py ''Acme Inc'', cleaned_name = py ''Acme'',
       url = py ''N/A'', status_code = Some 0, time_taken = 1\<rparr>)"
proof -
  have h1: "generate_website_urls third_runtime (py ''Acme Inc'') =
      [py ''https://www.acme.com'', py ''https://acme.com''] @ py ''http://www.acme.com'' #
      [py ''http://acme.com'', py ''https://acme.net'', py ''https://www.acme.org'']
      \<and> (\<forall>v\<in>set [py ''https://www.acme.com'', py ''https://acme.com''].
            \<exists>f. http_get third_runtime v 3 = Failed f)
      \<and> http_get third_runtime (py ''http://www.acme.com'') 3 = Response 404 (1 / 4)"
  proof (intro conjI)
    show "generate_website_urls third_runtime (py ''Acme Inc'') =
      [py ''https://www.acme.com'', py ''https://acme.com''] @ py ''http://www.acme.com'' #
      [py ''http://acme.com'', py ''https://acme.net'', py ''https://www.acme.org'']"
      by (simp add: urls_acme_third acme_urls_def)
  qed (simp_all add: third_runtime_def third_get_simps)
  have h2: "\<forall>v\<in>set (generate_website_urls dead_runtime (py ''Acme Inc'')).
      \<exists>f. http_get dead_runtime v 3 = Failed f"
    by (simp add: dead_runtime_def dead_get_def)
  from C4_check_single_company_fallback[of third_runtime "py ''Acme Inc''"
      "[py ''https://www.acme.com'', py ''https://acme.com'']" "py ''http://www.acme.com''"
      "[py ''http://acme.com'', py ''https://acme.net'', py ''https://www.acme.org'']"
      3 404 "1 / 4"] h1
  have r1: "check_single_company third_runtime 3 (py ''Acme Inc'') =
     (map Get ([py ''https://www.acme.com'', py ''https://acme.com''] @ [py ''http://www.acme.com'']),
      \<lparr>original_name = py ''Acme Inc'', cleaned_name = clean_company_name (py ''Acme Inc''),
       url = py ''http://www.acme.com'', status_code = Some 404,
       time_taken = clock third_runtime (py ''Acme Inc'')\<rparr>)"
    by blast
  from C4_check_single_company_fallback[of dead_runtime "py ''Acme Inc''" _ _ _ 3] h2
  have r2: "check_single_company dead_runtime 3 (py ''Acme Inc'') =
     (map Get (generate_website_urls dead_runtime (py ''Acme Inc'')),
      \<lparr>original_name = py ''Acme Inc'', cleaned_name = clean_company_name (py ''Acme Inc''),
       url = py ''N/A'', status_code = Some 0,
       time_taken = clock dead_runtime (py ''Acme Inc'')\<rparr>)"
    by blast
  show ?thesis
    unfolding r1 r2
    by (simp add: clean_acme_inc urls_acme third_runtime_def dead_runtime_def unit_clock_def)
qed

text \<open>
  C4 as stated fails: with every candidate failing, the status code of
  \<^verbatim>\<open>check_single_company\<close> is the number 0, not \<^verbatim>\<open>None\<close>, and the URL is the string
  \<^verbatim>\<open>N/A\<close>.
\<close>

theorem C4_failed_status_is_zero_counterexample:
  "status_code (snd (check_single_company dead_runtime 3 (py ''Acme Inc''))) = Some 0
   \<and> status_code (snd (check_single_company dead_runtime 3 (py ''Acme Inc''))) \<noteq> None
   \<and> url (snd (check_single_company dead_runtime 3 (py ''Acme Inc''))) = py ''N/A''"
  using check_single_company_dead[of dead_runtime 3 "py ''Acme Inc''"]
  by (simp add: dead_runtime_def)

section \<open>The failures of \<^verbatim>\<open>analyze_performance\<close> (C5)\<close>

lemma count_positive_None:
  "None \<in> set codes \<Longrightarrow> count_positive codes = Inl TypeError"
proof (induction codes)
  case Nil
  then show ?case by simp
next
  case (Cons c cs)
  then show ?case by (cases c) auto
qed

lemma count_positive_Some:
  "None \<notin> set codes \<Longrightarrow>
   count_positive codes =
     Inr (length (filter (\<lambda>c. case c of Some code \<Rightarrow> 0 < code | None \<Rightarrow> False) codes))"
proof (induction codes)
  case Nil
  then show ?case by simp
next
  case (Cons c cs)
  then show ?case by (cases c) auto
qed

lemma analyze_performance_empty: "analyze_performance [] = Inl ZeroDivisionError"
  by (simp add: analyze_performance_def)

lemma analyze_performance_None:
  "None \<in> set (map status_code results) \<Longrightarrow> analyze_performance results = Inl TypeError"
  by (simp add: analyze_performance_def count_positive_None del: set_map)

lemma analyze_performance_ok:
  assumes "results \<noteq> []" and "None \<notin> set (map status_code results)"
  shows "\<exists>m. analyze_performance results = Inr m
     \<and> total_companies m = length results
     \<and> successful_checks m =
         length (filter (\<lambda>r. case status_code r of Some code \<Rightarrow> 0 < code | None \<Rightarrow> False) results)"
  using assms
  by (simp add: analyze_performance_def count_positive_Some filter_map comp_def Let_def
      del: set_map)

text \<open>
  C5, as amended: \<^verbatim>\<open>analyze_performance\<close> has no \<^verbatim>\<open>NoData\<close> condition. On the empty
  sequence it raises \<^verbatim>\<open>ZeroDivisionError\<close>; on a sequence with a status code \<^verbatim>\<open>None\<close>
  it raises \<^verbatim>\<open>TypeError\<close>; on every non-empty sequence whose status codes are all
  integers it returns a summary of all the results.
\<close>

theorem C5_analyze_performance_failures:
  "(results = [] \<longrightarrow> analyze_performance results = Inl ZeroDivisionError)
   \<and> (None \<in> set (map status_code results) \<longrightarrow> analyze_performance results = Inl TypeError)
   \<and> (results \<noteq> [] \<and> None \<notin> set (map status_code results) \<longrightarrow>
        (\<exists>m. analyze_performance results = Inr m \<and> total_companies m = length results))"
  using analyze_performance_empty analyze_performance_None[of results]
    analyze_performance_ok[of results]
  by blast

text \<open>
  C5 as stated fails: on the empty sequence the outcome is the division by zero
  itself.
\<close>

theorem C5_empty_input_divides_by_zero_counterexample:
  "analyze_performance [] = Inl ZeroDivisionError"
  by (simp add: analyze_performance_def)

text \<open>The theorem of C5 at the empty list and at two lists of two results.\<close>

theorem C5_analyze_performance_failures_witness:
  "analyze_performance [] = Inl ZeroDivisionError
   \<and> analyze_performance [result_200, result_None] = Inl TypeError
   \<and> (\<exists>m. analyze_performance [result_200, result_0] = Inr m \<and> total_companies m = 2)"
proof -
  have h2: "None \<in> set (map status_code [result_200, result_None])"
    by (simp add: result_None_def)
  have h3: "[result_200, result_0] \<noteq> [] \<and> None \<notin> set (map status_code [result_200, result_0])"
    by (simp add: result_200_def result_0_def)
  from C5_analyze_performance_failures[of "[]"]
  have 1: "analyze_performance [] = Inl ZeroDivisionError" by simp
  from C5_analyze_performance_failures[of "[result_200, result_None]"] h2
  have 2: "analyze_performance [result_200, result_None] = Inl TypeError" by blast
  from C5_analyze_performance_failures[of "[result_200, result_0]"] h3
  have 3: "\<exists>m. analyze_performance [result_200, result_0] = Inr m \<and> total_companies m = 2"
    by (auto simp: numeral_2_eq_2)
  from 1 2 3 show ?thesis by simp
qed

section \<open>Who calls the rate limiter (C8)\<close>

text \<open>
  C8, as amended: the sequential strategy and the probe of the parallel strategy
  never call the rate limiter. No event of theirs is a call of the rate limiter,
  every probe of the parallel strategy makes at least one request, and the sequential
  strategy makes at least one request per company.
\<close>

theorem C8_sequential_and_parallel_bypass_rate_limiter:
  "RateLimit \<notin> set (fst (check_websites_sequential rt companies timeout))
   \<and> RateLimit \<notin> set (fst (check_single_company rt timeout company))
   \<and> fst (check_single_company rt timeout company) \<noteq> []
   \<and> length companies \<le> length (fst (check_websites_sequential rt companies timeout))"
proof -
  have 1: "RateLimit \<notin> set (fst (check_websites_sequential rt companies timeout))"
  proof (induction companies)
    case Nil
    then show ?case by simp
  next
    case (Cons c cs)
    then show ?case
      using first_response_no_rate_limit[of "\<lambda>u. http_get rt u timeout" "generate_website_urls rt c"]
      by (auto split: prod.splits)
  qed
  have 2: "RateLimit \<notin> set (fst (check_single_company rt timeout company))"
    using first_response_no_rate_limit[of "\<lambda>u. http_get rt u timeout" "generate_website_urls rt company"]
    by (auto simp: check_single_company_def split: prod.splits option.splits)
  have 3: "fst (check_single_company rt timeout company) \<noteq> []"
    using first_response_nonempty[OF generate_website_urls_nonempty, of "\<lambda>u. http_get rt u timeout" rt company]
    by (auto simp: check_single_company_def split: prod.splits option.splits)
  have 4: "length companies \<le> length (fst (check_websites_sequential rt companies timeout))"
  proof (induction companies)
    case Nil
    then show ?case by simp
  next
    case (Cons c cs)
    have "fst (first_response (\<lambda>u. http_get rt u timeout) (generate_website_urls rt c)) \<noteq> []"
      by (rule first_response_nonempty) (rule generate_website_urls_nonempty)
    then have "1 \<le> length (fst (first_response (\<lambda>u. http_get rt u timeout) (generate_website_urls rt c)))"
      by (cases "fst (first_response (\<lambda>u. http_get rt u timeout) (generate_website_urls rt c))") auto
    with Cons show ?case by (auto split: prod.splits)
  qed
  from 1 2 3 4 show ?thesis by simp
qed

text \<open>
  C8 as stated fails: the sequential run over \<^verbatim>\<open>Acme Inc\<close> on the answering transport
  consists of one request and nothing before it.
\<close>

theorem C8_request_without_rate_limiter_counterexample:
  "fst (check_websites_sequential live_runtime [py ''Acme Inc''] 3) =
     [Get (py ''https://www.acme.com'')]"
  by (simp add: urls_acme_live) (simp add: acme_urls_def live_runtime_def live_get_def)

section \<open>The candidate URLs (C9)\<close>

text \<open>
  C9: for every name, \<^verbatim>\<open>generate_website_urls\<close> returns the six templates, in the
  order of the source, around the cleaned name lower-cased and with its spaces
  removed; the result always has six URLs, and a name that cleans to the empty string
  gives the six URLs with nothing between the prefix and the domain. The function is
  total: no input raises.
\<close>

theorem C9_generate_website_urls:
  "(let n = filter (\<lambda>c. c \<noteq> 32) (str_lower rt (clean_company_name name))
    in generate_website_urls rt name =
         [py ''https://www.'' @ n @ py ''.com'',
          py ''https://'' @ n @ py ''.com'',
          py ''http://www.'' @ n @ py ''.com'',
          py ''http://'' @ n @ py ''.com'',
          py ''https://'' @ n @ py ''.net'',
          py ''https://www.'' @ n @ py ''.org'']
       \<and> 32 \<notin> set n)
   \<and> length (generate_website_urls rt name) = 6
   \<and> (clean_company_name name = [] \<and> str_lower rt [] = [] \<longrightarrow>
        generate_website_urls rt name =
          [py ''https://www..com'', py ''https://.com'', py ''http://www..com'',
           py ''http://.com'', py ''https://.net'', py ''https://www..org''])"
proof (intro conjI impI)
  show "let n = filter (\<lambda>c. c \<noteq> 32) (str_lower rt (clean_company_name name))
    in generate_website_urls rt name =
         [py ''https://www.'' @ n @ py ''.com'',
          py ''https://'' @ n @ py ''.com'',
          py ''http://www.'' @ n @ py ''.com'',
          py ''http://'' @ n @ py ''.com'',
          py ''https://'' @ n @ py ''.net'',
          py ''https://www.'' @ n @ py ''.org'']
       \<and> 32 \<notin> set n"
    by (simp add: generate_website_urls_def Let_def)
  show "length (generate_website_urls rt name) = 6"
    by (simp add: generate_website_urls_def Let_def)
  assume "clean_company_name name = [] \<and> str_lower rt [] = []"
  then show "generate_website_urls rt name =
          [py ''https://www..com'', py ''https://.com'', py ''http://www..com'',
           py ''http://.com'', py ''https://.net'', py ''https://www..org'']"
    by (simp add: generate_website_urls_def Let_def py_def)
qed

text \<open>
  The theorem of C9 at a name that cleans to the empty string, and at \<^verbatim>\<open>Acme Inc\<close>.
\<close>

theorem C9_generate_website_urls_witness:
  "generate_website_urls dead_runtime (py '' Ltd'') =
          [py ''https://www..com'', py ''https://.com'', py ''http://www..com'',
           py ''http://.com'', py ''https://.net'', py ''https://www..org'']
   \<and> generate_website_urls dead_runtime (py ''Acme Inc'') =
          [py ''https://www.acme.com'', py ''https://acme.com'', py ''http://www.acme.com'',
           py ''http://acme.com'', py ''https://acme.net'', py ''https://www.acme.org'']"
proof -
  have h: "clean_company_name (py '' Ltd'') = [] \<and> str_lower dead_runtime [] = []"
    by (simp add: dead_runtime_def ascii_str_lower_def) (simp add: string_eval)
  from C9_generate_website_urls[of dead_runtime "py '' Ltd''"] h
  have 1: "generate_website_urls dead_runtime (py '' Ltd'') =
          [py ''https://www..com'', py ''https://.com'', py ''http://www..com'',
           py ''http://.com'', py ''https://.net'', py ''https://www..org'']"
    by blast
  have n: "filter (\<lambda>c. c \<noteq> 32) (str_lower dead_runtime (clean_company_name (py ''Acme Inc''))) =
      py ''acme''"
    by (simp add: clean_acme_inc dead_runtime_def ascii_str_lower_def)
       (simp add: py_def ascii_lower_def)
  from C9_generate_website_urls[of dead_runtime "py ''Acme Inc''"]
  have 2: "generate_website_urls dead_runtime (py ''Acme Inc'') =
          [py ''https://www.acme.com'', py ''https://acme.com'', py ''http://www.acme.com'',
           py ''http://acme.com'', py ''https://acme.net'', py ''https://www.acme.org'']"
    unfolding Let_def n by (simp add: py_def)
  from 1 2 show ?thesis by simp
qed

section \<open>Counting successes (C10)\<close>

lemma probe_candidates_all_fail:
  "\<forall>v\<in>set (generate_website_urls rt company). \<exists>f. http_get rt v timeout = Failed f \<Longrightarrow>
   probe_candidates rt timeout company =
     (map Get (generate_website_urls rt company),
      \<lparr>original_name = company, cleaned_name = clean_company_name company,
       url = py ''N/A'', status_code = None, time_taken = clock rt company\<rparr>)"
proof -
  assume "\<forall>v\<in>set (generate_website_urls rt company). \<exists>f. http_get rt v timeout = Failed f"
  then have "first_response (\<lambda>u. http_get rt u timeout) (generate_website_urls rt company) =
      (map Get (generate_website_urls rt company), None)"
    by (intro first_response_all_fail) auto
  then show ?thesis by (simp add: probe_candidates_def)
qed

text \<open>
  C10: on a non-empty sequence whose status codes are all integers,
  \<^verbatim>\<open>analyze_performance\<close> counts exactly the results with a status code above 0; on a
  non-empty sequence with a status code \<^verbatim>\<open>None\<close> it raises \<^verbatim>\<open>TypeError\<close>. The result
  that the loop of \<^verbatim>\<open>check_website_async\<close> builds for a company whose candidates all
  fail has the status code \<^verbatim>\<open>None\<close>, so any sequence that holds it raises.
\<close>

theorem C10_success_count_and_None:
  "(results \<noteq> [] \<and> None \<notin> set (map status_code results) \<longrightarrow>
      (\<exists>m. analyze_performance results = Inr m
         \<and> successful_checks m =
             length (filter (\<lambda>r. case status_code r of Some code \<Rightarrow> 0 < code | None \<Rightarrow> False)
                       results)))
   \<and> (results \<noteq> [] \<and> (\<exists>r\<in>set results. status_code r = None) \<longrightarrow>
        analyze_performance results = Inl TypeError)
   \<and> ((\<forall>v\<in>set (generate_website_urls rt company). \<exists>f. http_get rt v timeout = Failed f) \<longrightarrow>
        status_code (snd (probe_candidates rt timeout company)) = None
        \<and> analyze_performance (before @ snd (probe_candidates rt timeout company) # after) =
            Inl TypeError)"
proof (intro conjI impI)
  assume "results \<noteq> [] \<and> None \<notin> set (map status_code results)"
  then show "\<exists>m. analyze_performance results = Inr m
         \<and> successful_checks m =
             length (filter (\<lambda>r. case status_code r of Some code \<Rightarrow> 0 < code | None \<Rightarrow> False)
                       results)"
    using analyze_performance_ok[of results] by blast
next
  assume "results \<noteq> [] \<and> (\<exists>r\<in>set results. status_code r = None)"
  then have "None \<in> set (map status_code results)" by force
  then show "analyze_performance results = Inl TypeError"
    by (rule analyze_performance_None)
next
  assume a: "\<forall>v\<in>set (generate_website_urls rt company). \<exists>f. http_get rt v timeout = Failed f"
  then show "status_code (snd (probe_candidates rt timeout company)) = None"
    by (simp add: probe_candidates_all_fail)
  then have "None \<in> set (map status_code (before @ snd (probe_candidates rt timeout company) # after))"
    by force
  then show "analyze_performance (before @ snd (probe_candidates rt timeout company) # after) =
            Inl TypeError"
    by (rule analyze_performance_None)
qed

text \<open>
  The theorem of C10 at a list with one success out of two, at a list with a status
  code \<^verbatim>\<open>None\<close>, and at the exhausted probe of \<^verbatim>\<open>Acme Inc\<close>.
\<close>

theorem C10_success_count_and_None_witness:
  "(\<exists>m. analyze_performance [result_200, result_0] = Inr m \<and> successful_checks m = 1)
   \<and> analyze_performance [result_200, result_None] = Inl TypeError
   \<and> status_code (snd (probe_candidates dead_runtime 3 (py ''Acme Inc''))) = None
   \<and> analyze_performance
        [result_200, snd (probe_candidates dead_runtime 3 (py ''Acme Inc'')), result_0] =
       Inl TypeError"
proof -
  have h1: "[result_200, result_0] \<noteq> [] \<and> None \<notin> set (map status_code [result_200, result_0])"
    by (simp add: result_200_def result_0_def)
  have h2: "[result_200, result_None] \<noteq> []
      \<and> (\<exists>r\<in>set [result_200, result_None]. status_code r = None)"
    by (simp add: result_None_def)
  have h3: "\<forall>v\<in>set (generate_website_urls dead_runtime (py ''Acme Inc'')).
      \<exists>f. http_get dead_runtime v 3 = Failed f"
    by (simp add: dead_runtime_def dead_get_def)
  from C10_success_count_and_None[of "[result_200, result_0]"] h1
  have "\<exists>m. analyze_performance [result_200, result_0] = Inr m
         \<and> successful_checks m =
             length (filter (\<lambda>r. case status_code r of Some code \<Rightarrow> 0 < code | None \<Rightarrow> False)
                       [result_200, result_0])"
    by blast
  then have 1: "\<exists>m. analyze_performance [result_200, result_0] = Inr m \<and> successful_checks m = 1"
    by (simp add: result_200_def result_0_def)
  from C10_success_count_and_None[of "[result_200, result_None]"] h2
  have 2: "analyze_performance [result_200, result_None] = Inl TypeError" by blast
  from C10_success_count_and_None[of _ dead_runtime "py ''Acme Inc''" 3 "[result_200]" "[result_0]"] h3
  have 3: "status_code (snd (probe_candidates dead_runtime 3 (py ''Acme Inc''))) = None
   \<and> analyze_performance
        ([result_200] @ snd (probe_candidates dead_runtime 3 (py ''Acme Inc'')) # [result_0]) =
       Inl TypeError"
    by blast
  from 1 2 3 show ?thesis by simp
qed

section \<open>Idempotence and the cache (C6)\<close>

subsection \<open>The cache holds only results of the function\<close>

lemma cached_sound:
  assumes "\<forall>e\<in>set c. snd e = clean_company_name (fst e)"
  shows "fst (cached_clean_company_name c name) = clean_company_name name
    \<and> (\<forall>e\<in>set (snd (cached_clean_company_name c name)). snd e = clean_company_name (fst e))"
proof (cases "map_of c name")
  case None
  with assms show ?thesis
    by (auto simp: cached_clean_company_name_def dest: in_set_takeD)
next
  case (Some v)
  then have "(name, v) \<in> set c" by (rule map_of_SomeD)
  with assms have "v = clean_company_name name" by force
  with Some assms show ?thesis
    by (auto simp: cached_clean_company_name_def)
qed

lemma fold_cached_sound:
  "\<forall>e\<in>set c. snd e = clean_company_name (fst e) \<Longrightarrow>
   \<forall>e\<in>set (fold (\<lambda>n c. snd (cached_clean_company_name c n)) names c).
      snd e = clean_company_name (fst e)"
proof (induction names arbitrary: c)
  case Nil
  then show ?case by simp
next
  case (Cons n names)
  from cached_sound[OF Cons.prems, of n]
  have "\<forall>e\<in>set (snd (cached_clean_company_name c n)). snd e = clean_company_name (fst e)"
    by blast
  from Cons.IH[OF this] show ?case by simp
qed

lemma warm_cache_sound:
  "fst (cached_clean_company_name (warm_cache names) name) = clean_company_name name"
proof -
  have "\<forall>e\<in>set (warm_cache names). snd e = clean_company_name (fst e)"
    unfolding warm_cache_def by (rule fold_cached_sound) simp
  from cached_sound[OF this] show ?thesis by blast
qed

subsection \<open>A cleaned name without quotes and suffixes is a fixed point\<close>

lemma space_not_special: "32 \<notin> set special_characters"
  by (simp add: special_characters_def py_def)

lemma isspace_32: "isspace 32"
  by (simp add: isspace_def unicode_whitespace_def)

lemma py_space: "py '' '' = [32]"
  by (simp add: py_def)

lemma clean_no_special:
  "set (clean_company_name s) \<inter> set special_characters = {}"
proof -
  let ?x = "remove_special (strip_suffixes (str_strip bom_and_quotes s))"
  have "set (clean_company_name s) \<subseteq> {32} \<union> \<Union> (set ` set (str_split ?x))"
    using str_join_set[of "[32]" "str_split ?x"]
    by (simp add: clean_company_name_def py_space)
  moreover have "\<Union> (set ` set (str_split ?x)) \<subseteq> set ?x"
    using str_split_set[of _ ?x] by auto
  moreover have "set ?x \<inter> set special_characters = {}"
    by (auto simp: remove_special_def)
  ultimately show ?thesis using space_not_special by auto
qed

lemma remove_special_clean:
  "remove_special (clean_company_name s) = clean_company_name s"
  unfolding remove_special_def using clean_no_special[of s]
  by (intro filter_True) auto

lemma normalise_clean:
  "str_join (py '' '') (str_split (clean_company_name s)) = clean_company_name s"
  unfolding clean_company_name_def py_space
  by (rule str_join_split_idem) (rule isspace_32)

lemma fold_re_sub_fixed:
  "\<forall>pat\<in>set pats. re_sub pat t = t \<Longrightarrow> fold re_sub pats t = t"
  by (induction pats) auto

lemma clean_idempotent_if:
  assumes "str_strip bom_and_quotes (clean_company_name s) = clean_company_name s"
    and "\<forall>pat\<in>set suffixes. re_sub pat (clean_company_name s) = clean_company_name s"
  shows "clean_company_name (clean_company_name s) = clean_company_name s"
proof -
  have "strip_suffixes (clean_company_name s) = clean_company_name s"
    unfolding strip_suffixes_def using assms(2) by (rule fold_re_sub_fixed)
  then have "clean_company_name (clean_company_name s) =
      str_join (py '' '') (str_split (clean_company_name s))"
    by (subst clean_company_name_def) (simp add: assms(1) remove_special_clean)
  then show ?thesis by (simp add: normalise_clean)
qed

subsection \<open>No step makes a name longer, so a fixed point is left alone by every step\<close>

lemma dropWhile_same_length:
  assumes "length (dropWhile P xs) = length xs"
  shows "dropWhile P xs = xs"
proof (cases xs)
  case Nil
  then show ?thesis by simp
next
  case (Cons x ys)
  show ?thesis
  proof (cases "P x")
    case True
    with Cons assms have "length (dropWhile P ys) = Suc (length ys)" by simp
    with length_dropWhile_le[of P ys] show ?thesis by simp
  next
    case False
    with Cons show ?thesis by simp
  qed
qed

lemma str_strip_length: "length (str_strip cs s) \<le> length s"
  unfolding str_strip_def
  by (metis length_dropWhile_le length_rev le_trans)

lemma str_strip_same_length:
  assumes "length (str_strip cs s) = length s"
  shows "str_strip cs s = s"
proof -
  let ?P = "\<lambda>c. c \<in> set cs"
  have le1: "length (dropWhile ?P (rev (dropWhile ?P s))) \<le> length (dropWhile ?P s)"
    by (metis length_dropWhile_le length_rev)
  have le2: "length (dropWhile ?P s) \<le> length s"
    by (rule length_dropWhile_le)
  from assms have eq: "length (dropWhile ?P (rev (dropWhile ?P s))) = length s"
    by (simp add: str_strip_def)
  with le1 le2 have "length (dropWhile ?P s) = length s" by linarith
  then have a: "dropWhile ?P s = s" by (rule dropWhile_same_length)
  with eq have "length (dropWhile ?P (rev s)) = length (rev s)" by simp
  then have "dropWhile ?P (rev s) = rev s" by (rule dropWhile_same_length)
  with a show ?thesis by (simp add: str_strip_def)
qed

lemma match_word_length: "match_word w r = Some t \<Longrightarrow> length t \<le> length r"
  by (induction w r rule: match_word.induct) (auto split: if_splits)

lemma match_suffix_shorter:
  assumes "match_suffix pat s = Some t"
  shows "length t < length s"
proof -
  from assms have ne: "takeWhile isspace s \<noteq> []"
    by (auto simp: match_suffix_def split: if_splits)
  then have "length (dropWhile isspace s) < length s"
    by (metis add.commute add_cancel_right_left length_append length_greater_0_conv
        less_add_same_cancel2 nat_neq_iff takeWhile_dropWhile_id not_add_less2)
  moreover from assms ne obtain r where r: "match_word (fst pat) (dropWhile isspace s) = Some r"
    and "t = r \<or> t = tl r"
    by (auto simp: match_suffix_def split: if_splits option.splits list.splits)
  moreover from r have "length r \<le> length (dropWhile isspace s)"
    by (rule match_word_length)
  ultimately show ?thesis by (auto simp: le_less_trans)
qed

lemma re_sub_length: "length (re_sub pat s) \<le> length s"
proof (induction s)
  case Nil
  then show ?case by simp
next
  case (Cons c cs)
  then show ?case
    using match_suffix_shorter[of pat "c # cs"]
    by (auto split: option.splits simp: less_imp_le)
qed

lemma re_sub_same_length: "length (re_sub pat s) = length s \<Longrightarrow> re_sub pat s = s"
proof (induction s)
  case Nil
  then show ?case by simp
next
  case (Cons c cs)
  then show ?case
    using match_suffix_shorter[of pat "c # cs"]
    by (auto split: option.splits)
qed

lemma fold_re_sub_length: "length (fold re_sub pats x) \<le> length x"
proof (induction pats arbitrary: x)
  case Nil
  then show ?case by simp
next
  case (Cons p pats)
  have "length (fold re_sub pats (re_sub p x)) \<le> length (re_sub p x)" by (rule Cons.IH)
  also have "\<dots> \<le> length x" by (rule re_sub_length)
  finally show ?case by simp
qed

lemma fold_re_sub_same_length:
  "length (fold re_sub pats x) = length x \<Longrightarrow> \<forall>p\<in>set pats. re_sub p x = x"
proof (induction pats arbitrary: x)
  case Nil
  then show ?case by simp
next
  case (Cons p pats)
  have "length (fold re_sub pats (re_sub p x)) \<le> length (re_sub p x)"
    by (rule fold_re_sub_length)
  with Cons.prems have "length x \<le> length (re_sub p x)" by simp
  with re_sub_length[of p x] have "length (re_sub p x) = length x" by simp
  then have p: "re_sub p x = x" by (rule re_sub_same_length)
  with Cons.prems have "length (fold re_sub pats x) = length x" by simp
  from Cons.IH[OF this] p show ?case by simp
qed

lemma str_join_Cons_nonempty:
  "ws \<noteq> [] \<Longrightarrow> str_join sep (w # ws) = w @ sep @ str_join sep ws"
  by (cases ws) auto

lemma str_join_split_length:
  "length (str_join [d] (str_split s)) \<le> length s
   \<and> (s \<noteq> [] \<and> isspace (hd s) \<longrightarrow> length (str_join [d] (str_split s)) < length s)"
proof (induction s)
  case Nil
  then show ?case by simp
next
  case (Cons c cs)
  show ?case
  proof (cases "isspace c")
    case True
    with Cons show ?thesis by (simp add: str_split_Cons)
  next
    case False
    show ?thesis
    proof (cases "cs = []")
      case True
      with False show ?thesis by (simp add: str_split_Cons)
    next
      case ne: False
      show ?thesis
      proof (cases "isspace (hd cs)")
        case True
        show ?thesis
        proof (cases "str_split cs = []")
          case True
          with False \<open>isspace (hd cs)\<close> show ?thesis by (simp add: str_split_Cons)
        next
          case False
          with \<open>\<not> isspace c\<close> True ne Cons show ?thesis
            by (simp add: str_split_Cons str_join_Cons_nonempty)
        qed
      next
        case False
        then have "str_split cs \<noteq> []"
          using ne str_split_nonspace_nonempty[of "hd cs" "tl cs"] by simp
        then obtain w ws where "str_split cs = w # ws" by (cases "str_split cs") auto
        with \<open>\<not> isspace c\<close> False ne Cons show ?thesis
          by (cases ws) (simp_all add: str_split_Cons)
      qed
    qed
  qed
qed

lemma clean_fixed_only_if:
  assumes "clean_company_name x = x"
  shows "str_strip bom_and_quotes x = x \<and> (\<forall>pat\<in>set suffixes. re_sub pat x = x)"
proof -
  let ?a = "str_strip bom_and_quotes x"
  let ?b = "strip_suffixes ?a"
  let ?c = "remove_special ?b"
  have "length (clean_company_name x) \<le> length ?c"
    using str_join_split_length[of 32 ?c] by (simp add: clean_company_name_def py_space)
  moreover have "length ?c \<le> length ?b" by (simp add: remove_special_def)
  moreover have "length ?b \<le> length ?a"
    unfolding strip_suffixes_def by (rule fold_re_sub_length)
  moreover have "length ?a \<le> length x" by (rule str_strip_length)
  moreover have "length (clean_company_name x) = length x" using assms by simp
  ultimately have la: "length ?a = length x" and lb: "length ?b = length ?a" by linarith+
  from la have a: "?a = x" by (rule str_strip_same_length)
  with lb have "length (fold re_sub suffixes x) = length x" by (simp add: strip_suffixes_def)
  then have "\<forall>pat\<in>set suffixes. re_sub pat x = x" by (rule fold_re_sub_same_length)
  with a show ?thesis by simp
qed

lemmas match_eval =
  py_def isspace_def unicode_whitespace_def ascii_lower_def ci_match_def at_end_def
  match_suffix_def

text \<open>
  C6, as amended: the result depends on the argument only, with a cold cache as with
  a warm one. Cleaning is not idempotent in general: \<open>clean_company_name s\<close> is left
  unchanged by a second application exactly when it neither starts or ends with a
  quote or byte order mark nor still matches a suffix pattern.
\<close>

theorem C6_cache_transparent_and_fixed_points:
  "fst (cached_clean_company_name (warm_cache names) s) = fst (cached_clean_company_name [] s)
   \<and> fst (cached_clean_company_name [] s) = clean_company_name s
   \<and> (clean_company_name (clean_company_name s) = clean_company_name s \<longleftrightarrow>
        str_strip bom_and_quotes (clean_company_name s) = clean_company_name s
        \<and> (\<forall>pat\<in>set suffixes. re_sub pat (clean_company_name s) = clean_company_name s))"
proof (intro conjI)
  have cold: "fst (cached_clean_company_name [] s) = clean_company_name s"
    by (simp add: cached_clean_company_name_def)
  then show "fst (cached_clean_company_name [] s) = clean_company_name s" .
  from cold show "fst (cached_clean_company_name (warm_cache names) s) =
      fst (cached_clean_company_name [] s)"
    by (simp add: warm_cache_sound)
  show "clean_company_name (clean_company_name s) = clean_company_name s \<longleftrightarrow>
        str_strip bom_and_quotes (clean_company_name s) = clean_company_name s
        \<and> (\<forall>pat\<in>set suffixes. re_sub pat (clean_company_name s) = clean_company_name s)"
    using clean_fixed_only_if[of "clean_company_name s"] clean_idempotent_if[of s]
    by blast
qed

lemma clean_acme_inc_ltd: "clean_company_name (py ''Acme Inc Ltd'') = py ''Acme Inc''"
  by (simp add: string_eval)

text \<open>
  C6 as stated fails: \<^verbatim>\<open>Acme Inc Ltd\<close> is cleaned to \<^verbatim>\<open>Acme Inc\<close> (when the pattern for
  \<^verbatim>\<open>Inc\<close> is tried the name still ends in \<^verbatim>\<open>Ltd\<close>), and a second application gives
  \<^verbatim>\<open>Acme\<close>.
\<close>

theorem C6_second_pass_strips_more_counterexample:
  "clean_company_name (py ''Acme Inc Ltd'') = py ''Acme Inc''
   \<and> clean_company_name (clean_company_name (py ''Acme Inc Ltd'')) = py ''Acme''
   \<and> clean_company_name (clean_company_name (py ''Acme Inc Ltd'')) \<noteq>
       clean_company_name (py ''Acme Inc Ltd'')"
  by (simp add: clean_acme_inc_ltd clean_acme_inc) (simp add: py_def)

text \<open>
  The theorem of C6 at \<^verbatim>\<open>Acme Inc\<close>, with a cache warmed by two calls, where the
  cleaned name is a fixed point; and at \<^verbatim>\<open>Acme Inc Ltd\<close>, where it is not and a
  suffix pattern still matches.
\<close>

theorem C6_cache_transparent_and_fixed_points_witness:
  "fst (cached_clean_company_name (warm_cache [py ''Acme Inc Ltd'', py ''Acme Inc''])
          (py ''Acme Inc'')) = py ''Acme''
   \<and> clean_company_name (clean_company_name (py ''Acme Inc'')) =
       clean_company_name (py ''Acme Inc'')
   \<and> \<not> (\<forall>pat\<in>set suffixes.
          re_sub pat (clean_company_name (py ''Acme Inc Ltd'')) =
            clean_company_name (py ''Acme Inc Ltd''))"
proof -
  note main = C6_cache_transparent_and_fixed_points
  have h: "str_strip bom_and_quotes (clean_company_name (py ''Acme Inc'')) =
        clean_company_name (py ''Acme Inc'')
      \<and> (\<forall>pat\<in>set suffixes.
            re_sub pat (clean_company_name (py ''Acme Inc'')) = clean_company_name (py ''Acme Inc''))"
    unfolding clean_acme_inc
    by (simp add: str_strip_def bom_and_quotes_def suffixes_def match_eval)
  from main[of "[py ''Acme Inc Ltd'', py ''Acme Inc'']" "py ''Acme Inc''"]
  have 1: "fst (cached_clean_company_name (warm_cache [py ''Acme Inc Ltd'', py ''Acme Inc''])
          (py ''Acme Inc'')) = py ''Acme''"
    by (simp add: clean_acme_inc)
  from main[of "[]" "py ''Acme Inc''"] h
  have 2: "clean_company_name (clean_company_name (py ''Acme Inc'')) =
       clean_company_name (py ''Acme Inc'')"
    by blast
  have ne: "clean_company_name (clean_company_name (py ''Acme Inc Ltd'')) \<noteq>
       clean_company_name (py ''Acme Inc Ltd'')"
    by (simp add: clean_acme_inc_ltd clean_acme_inc) (simp add: py_def)
  from main[of "[]" "py ''Acme Inc Ltd''"] ne
  have 3: "\<not> (\<forall>pat\<in>set suffixes.
          re_sub pat (clean_company_name (py ''Acme Inc Ltd'')) =
            clean_company_name (py ''Acme Inc Ltd''))"
    unfolding clean_acme_inc_ltd
    by (simp add: str_strip_def bom_and_quotes_def py_def)
  from 1 2 3 show ?thesis by simp
qed

section \<open>The order of the suffix patterns (C7)\<close>

lemma match_word_exact: "match_word w r = Some t \<Longrightarrow> length r = length w + length t"
  by (induction w r rule: match_word.induct) (auto split: if_splits)

lemma match_suffix_None_long:
  assumes "length (fst pat) + 2 < length (dropWhile isspace s)"
  shows "match_suffix pat s = None"
proof (rule ccontr)
  assume "match_suffix pat s \<noteq> None"
  then obtain t where t: "match_suffix pat s = Some t" by auto
  then obtain r where r: "match_word (fst pat) (dropWhile isspace s) = Some r"
    and "r = [] \<or> (r = 46 # t \<and> at_end t) \<or> (r = t \<and> at_end t)"
    by (auto simp: match_suffix_def split: if_splits option.splits list.splits)
  then have "length r \<le> 2" by (auto simp: at_end_def)
  with match_word_exact[OF r] assms show False by simp
qed

lemma dropWhile_append_keeps:
  "y \<noteq> [] \<Longrightarrow> \<not> P (hd y) \<Longrightarrow> length y \<le> length (dropWhile P (x @ y))"
  by (induction x) (auto simp: dropWhile_eq_self_iff[THEN iffD2])

lemma re_sub_append_long:
  assumes "y \<noteq> []" and "\<not> isspace (hd y)" and "length (fst pat) + 2 < length y"
  shows "re_sub pat (x @ y) = x @ re_sub pat y"
proof (induction x)
  case Nil
  then show ?case by simp
next
  case (Cons c x)
  have "length y \<le> length (dropWhile isspace ((c # x) @ y))"
    using assms(1,2) by (rule dropWhile_append_keeps)
  with assms(3) have "match_suffix pat ((c # x) @ y) = None"
    by (intro match_suffix_None_long) simp
  with Cons show ?case by simp
qed

lemma dropWhile_append_stop:
  "y \<noteq> [] \<Longrightarrow> \<not> P (hd y) \<Longrightarrow> dropWhile P (x @ y) = dropWhile P x @ y"
  by (induction x) (auto simp: dropWhile_eq_self_iff[THEN iffD2])

lemma str_join_snoc:
  "str_join sep (ws @ [v]) = (if ws = [] then v else str_join sep ws @ sep @ v)"
  by (induction sep ws rule: str_join.induct) auto

lemma str_split_append_word:
  assumes "w \<noteq> []" and "\<forall>c\<in>set w. \<not> isspace c"
  shows "\<exists>ws u. str_split (x @ w) = ws @ [u @ w]"
proof (induction x)
  case Nil
  from assms have "str_split w = [] @ [[] @ w]" by (simp add: str_split_word)
  then show ?case by (metis append_Nil)
next
  case (Cons c x)
  then obtain ws u where ih: "str_split (x @ w) = ws @ [u @ w]" by blast
  from assms(1) have ne: "x @ w \<noteq> []" by simp
  show ?case
  proof (cases "isspace c")
    case True
    with ih show ?thesis by (simp add: str_split_Cons)
  next
    case False
    show ?thesis
    proof (cases "isspace (hd (x @ w))")
      case True
      with False ne ih assms(1) have "str_split ((c # x) @ w) = ([c] # ws) @ [u @ w]"
        by (simp add: str_split_Cons)
      then show ?thesis by blast
    next
      case nsp: False
      show ?thesis
      proof (cases ws)
        case Nil
        with False nsp ne ih assms(1) have "str_split ((c # x) @ w) = [] @ [(c # u) @ w]"
          by (simp add: str_split_Cons)
        then show ?thesis by blast
      next
        case (Cons v vs)
        with False nsp ne ih assms(1) have "str_split ((c # x) @ w) = ((c # v) # vs) @ [u @ w]"
          by (simp add: str_split_Cons)
        then show ?thesis by blast
      qed
    qed
  qed
qed

lemma normalise_append_word:
  assumes "w \<noteq> []" and "\<forall>c\<in>set w. \<not> isspace c"
  shows "\<exists>q. str_join sep (str_split (x @ w)) = q @ w"
proof -
  from str_split_append_word[OF assms, of x]
  obtain ws u where "str_split (x @ w) = ws @ [u @ w]" by blast
  then have "str_join sep (str_split (x @ w)) =
      (if ws = [] then u @ w else str_join sep ws @ sep @ u @ w)"
    by (simp add: str_join_snoc)
  then show ?thesis by (cases "ws = []") (auto intro: exI[of _ u] exI[of _ "str_join sep ws @ sep @ u"])
qed

lemma strip_suffixes_long_tail:
  assumes "y \<noteq> []" and "\<not> isspace (hd y)" and "14 < length y"
    and "re_sub (py ''Inc'', True) y = y"
    and "re_sub (py ''Corp'', True) y = y"
    and "re_sub (py ''Incorporated'', False) y = y"
    and "re_sub (py ''Corporation'', False) y = y"
    and "re_sub (py ''Limited'', False) y = y"
    and "re_sub (py ''Ltd'', True) y = z"
  shows "strip_suffixes (x @ y) = x @ z"
proof -
  have len: "\<forall>pat\<in>set suffixes. length (fst pat) + 2 < length y"
    using assms(3) by (simp add: suffixes_def py_def)
  have step: "re_sub pat (x @ y) = x @ re_sub pat y" if "pat \<in> set suffixes" for pat
    using assms(1,2) len that by (intro re_sub_append_long) auto
  have mem: "(py ''Inc'', True) \<in> set suffixes" "(py ''Corp'', True) \<in> set suffixes"
    "(py ''Incorporated'', False) \<in> set suffixes" "(py ''Corporation'', False) \<in> set suffixes"
    "(py ''Limited'', False) \<in> set suffixes" "(py ''Ltd'', True) \<in> set suffixes"
    by (simp_all add: suffixes_def)
  show ?thesis
    unfolding strip_suffixes_def suffixes_def
    by (simp add: step[OF mem(1)] step[OF mem(2)] step[OF mem(3)] step[OF mem(4)]
        step[OF mem(5)] step[OF mem(6)] assms(4-9))
qed

lemma strip_suffixes_corporation_ltd:
  "strip_suffixes (x @ py ''Corporation Ltd'') = x @ py ''Corporation''"
  by (rule strip_suffixes_long_tail) (simp_all add: match_eval)

lemma strip_suffixes_upper_dot:
  "strip_suffixes (x @ py ''CORPORATION LTD.'') = x @ py ''CORPORATION''"
  by (rule strip_suffixes_long_tail) (simp_all add: match_eval)

lemma strip_suffixes_not_at_end:
  "strip_suffixes (x @ py ''Corporation Ltd Holdings'') = x @ py ''Corporation Ltd Holdings''"
  by (rule strip_suffixes_long_tail) (simp_all add: match_eval)

lemma str_strip_corporation_ltd:
  "str_strip bom_and_quotes (p @ py ''Corporation Ltd'') =
     dropWhile (\<lambda>c. c \<in> set bom_and_quotes) p @ py ''Corporation Ltd''"
proof -
  let ?P = "\<lambda>c. c \<in> set bom_and_quotes"
  have "dropWhile ?P (p @ py ''Corporation Ltd'') = dropWhile ?P p @ py ''Corporation Ltd''"
    by (rule dropWhile_append_stop) (simp_all add: py_def bom_and_quotes_def)
  then show ?thesis
    by (simp add: str_strip_def) (simp add: py_def bom_and_quotes_def)
qed

lemma remove_special_corporation:
  "remove_special (x @ py ''Corporation'') = remove_special x @ py ''Corporation''"
  by (simp add: remove_special_def special_characters_def py_def)

lemma clean_corporation_ltd:
  "\<exists>q. clean_company_name (p @ py ''Corporation Ltd'') = q @ py ''Corporation''"
proof -
  have w: "py ''Corporation'' \<noteq> [] \<and> (\<forall>c\<in>set (py ''Corporation''). \<not> isspace c)"
    by (simp add: py_def isspace_def unicode_whitespace_def)
  then show ?thesis
    unfolding clean_company_name_def str_strip_corporation_ltd strip_suffixes_corporation_ltd
      remove_special_corporation
    by (intro normalise_append_word) auto
qed

text \<open>
  C7, as amended: the six patterns are applied once each, in the order of the source
  (\<^verbatim>\<open>Inc\<close>, \<^verbatim>\<open>Corp\<close>, \<^verbatim>\<open>Incorporated\<close>, \<^verbatim>\<open>Corporation\<close>, \<^verbatim>\<open>Limited\<close>, \<^verbatim>\<open>Ltd\<close>), each
  on the result of the one before. For every name that ends in \<^verbatim>\<open>Corporation Ltd\<close>
  only \<^verbatim>\<open>Ltd\<close> is stripped, since the pattern for \<^verbatim>\<open>Corporation\<close> has been tried before:
  the cleaned name ends in \<^verbatim>\<open>Corporation\<close>. The match ignores case and takes an optional
  dot (\<^verbatim>\<open>CORPORATION LTD.\<close> loses \<^verbatim>\<open>LTD.\<close>), and a suffix word that is not at the end
  stays (\<^verbatim>\<open>Corporation Ltd Holdings\<close> is left as it is).
\<close>

theorem C7_corporation_ltd_keeps_corporation:
  "strip_suffixes name =
     re_sub (py ''Ltd'', True)
       (re_sub (py ''Limited'', False)
         (re_sub (py ''Corporation'', False)
           (re_sub (py ''Incorporated'', False)
             (re_sub (py ''Corp'', True)
               (re_sub (py ''Inc'', True) name)))))
   \<and> strip_suffixes (p @ py ''Corporation Ltd'') = p @ py ''Corporation''
   \<and> (\<exists>q. clean_company_name (p @ py ''Corporation Ltd'') = q @ py ''Corporation'')
   \<and> strip_suffixes (p @ py ''CORPORATION LTD.'') = p @ py ''CORPORATION''
   \<and> strip_suffixes (p @ py ''Corporation Ltd Holdings'') = p @ py ''Corporation Ltd Holdings''"
  using clean_corporation_ltd[of p] strip_suffixes_corporation_ltd[of p]
    strip_suffixes_upper_dot[of p] strip_suffixes_not_at_end[of p]
  by (simp add: strip_suffixes_def suffixes_def)

text \<open>C7 as stated fails: \<^verbatim>\<open>Acme Corporation Ltd\<close> is cleaned to \<^verbatim>\<open>Acme Corporation\<close>.\<close>

theorem C7_corporation_survives_counterexample:
  "clean_company_name (py ''Acme Corporation Ltd'') = py ''Acme Corporation''"
  by (simp add: string_eval)

end
